theory Spec2Isabelle
  imports Complex_Main
begin

section \<open>The content moderation cog (\<^verbatim>\<open>bot/cogs/censorship.py\<close>)\<close>

text \<open>
  A shallow embedding of the \<^verbatim>\<open>Censorship\<close> cog: the Soundex code, the lexicon
  loader, the naive-Bayes score, the three-stage message check, the per-message handler
  and the periodic sweep over the infractions table.

  Conventions of the model.
  \<^item> Text is a \<^typ>\<open>string\<close> (a list of 8-bit characters). The string methods of
    Python used by the cog (\<^verbatim>\<open>upper\<close>, \<^verbatim>\<open>lower\<close>, \<^verbatim>\<open>strip\<close>,
    \<^verbatim>\<open>startswith\<close>) are written out for ASCII text; characters outside
    \<^verbatim>\<open>a..z\<close>/\<^verbatim>\<open>A..Z\<close> are left unchanged by the case conversions.
  \<^item> Everything the Python raises is a value: a function that can raise returns
    \<^verbatim>\<open>py_error + 'a\<close>, with \<open>Inl\<close> for the exception.
  \<^item> The NLTK tokenizer and the Porter stemmer are library code, not code of the cog;
    they are parameters of the model (the record \<open>nlp\<close>).
  \<^item> Python floats: where only the order of the stages and the comparison of the score
    with the threshold matter, the score is computed in exact arithmetic (the reals). The
    score function itself is also given over the float arithmetic of Python as a
    parameter (the record \<open>arith\<close>), with its rounding and underflow; the exact version
    is its instance at the arithmetic of the reals.
  \<^item> The SQLite table is a list of rows and the AUTOINCREMENT counter; statements on
    it always succeed.
\<close>

subsection \<open>Python values and string methods\<close>

datatype py_error = IndexError | ZeroDivisionError

text \<open>\<^verbatim>\<open>str.upper\<close> and \<^verbatim>\<open>str.lower\<close> on ASCII text.\<close>

definition upper_char :: "char \<Rightarrow> char" where
  "upper_char c =
     (case map_of (zip ''abcdefghijklmnopqrstuvwxyz'' ''ABCDEFGHIJKLMNOPQRSTUVWXYZ'') c of
        Some u \<Rightarrow> u
      | None \<Rightarrow> c)"

definition lower_char :: "char \<Rightarrow> char" where
  "lower_char c =
     (case map_of (zip ''ABCDEFGHIJKLMNOPQRSTUVWXYZ'' ''abcdefghijklmnopqrstuvwxyz'') c of
        Some l \<Rightarrow> l
      | None \<Rightarrow> c)"

definition str_upper :: "string \<Rightarrow> string" where
  "str_upper s = map upper_char s"

definition str_lower :: "string \<Rightarrow> string" where
  "str_lower s = map lower_char s"

text \<open>
  \<^verbatim>\<open>str.strip()\<close>: leading and trailing whitespace is removed. The ASCII characters
  Python counts as whitespace are TAB, LF, VT, FF, CR, the separators 0x1C..0x1F and
  the space.
\<close>

definition is_space :: "char \<Rightarrow> bool" where
  "is_space c = (of_char c \<in> set [9, 10, 11, 12, 13, 28, 29, 30, 31, 32 :: nat])"

definition str_strip :: "string \<Rightarrow> string" where
  "str_strip s = rev (dropWhile is_space (rev (dropWhile is_space s)))"

text \<open>\<^verbatim>\<open>word.startswith('#')\<close>.\<close>

definition startswith_hash :: "string \<Rightarrow> bool" where
  "startswith_hash s = (case s of [] \<Rightarrow> False | c # _ \<Rightarrow> c = CHR ''#'')"

subsection \<open>The Soundex code (\<^verbatim>\<open>Censorship.soundex\<close>)\<close>

text \<open>
  \<^verbatim>\<open>
  codes = ("BFPV", "CGJKQSXZ", "DT", "L", "MN", "R")
  soundex_dict = {}
  for code, letters in enumerate(codes, 1):
      for letter in letters:
          soundex_dict[letter] = str(code)
  \<close>
\<close>

definition codes :: "string list" where
  "codes = [''BFPV'', ''CGJKQSXZ'', ''DT'', ''L'', ''MN'', ''R'']"

text \<open>\<^verbatim>\<open>str(code)\<close> for the one-digit numbers the enumeration produces.\<close>

definition str_of_code :: "nat \<Rightarrow> char" where
  "str_of_code n = ''0123456789'' ! n"

definition soundex_dict :: "char \<rightharpoonup> char" where
  "soundex_dict =
     fold (\<lambda>(code, letters) d. fold (\<lambda>letter d'. d'(letter \<mapsto> str_of_code code)) letters d)
       (zip [1 ..< Suc (length codes)] codes) Map.empty"

text \<open>\<^verbatim>\<open>soundex_dict.get(char, '0')\<close>.\<close>

definition soundex_digit :: "char \<Rightarrow> char" where
  "soundex_digit c = (case soundex_dict c of None \<Rightarrow> CHR ''0'' | Some d \<Rightarrow> d)"

text \<open>
  The loop over \<^verbatim>\<open>word[1:]\<close>. The accumulator is the Python list
  \<^verbatim>\<open>soundex_code\<close>, which starts as \<^verbatim>\<open>[word[0]]\<close> and is therefore never
  empty; \<^verbatim>\<open>soundex_code[-1]\<close> is its last element.
  \<^verbatim>\<open>
  for char in word[1:]:
      digit = soundex_dict.get(char, '0')
      if digit != soundex_code[-1]:
          soundex_code.append(digit)
  \<close>
\<close>

fun soundex_loop :: "string \<Rightarrow> string \<Rightarrow> string" where
  "soundex_loop soundex_code [] = soundex_code"
| "soundex_loop soundex_code (c # rest) =
     (let digit = soundex_digit c
      in soundex_loop (if digit \<noteq> last soundex_code then soundex_code @ [digit]
                       else soundex_code) rest)"

text \<open>
  \<^verbatim>\<open>word[0]\<close> raises \<^verbatim>\<open>IndexError\<close> on the empty word. After the loop the
  placeholders \<^verbatim>\<open>'0'\<close> are removed, and the code is padded and cut to four
  characters.
\<close>

definition soundex :: "string \<Rightarrow> py_error + string" where
  "soundex word0 =
     (let word = str_upper word0
      in case word of
           [] \<Rightarrow> Inl IndexError
         | first # rest \<Rightarrow>
             (let soundex_code = soundex_loop [first] rest;
                  joined = filter (\<lambda>c. c \<noteq> CHR ''0'') soundex_code
              in Inr (take 4 (joined @ ''0000''))))"

subsection \<open>The state of the cog and its collaborators\<close>

text \<open>
  A row of the table \<^verbatim>\<open>infractions\<close>. The identifiers are stored as text and read
  back with \<^verbatim>\<open>int(...)\<close>; the model keeps them as numbers.
\<close>

record infraction =
  row_id :: nat
  message_id :: nat
  channel_id :: nat
  user_id :: nat
  timestamp :: real
  deletion_time :: real
  content :: string

text \<open>The fields of a \<^verbatim>\<open>discord.Message\<close> the cog reads.\<close>

record message =
  msg_id :: nat
  msg_channel_id :: nat
  msg_author_id :: nat
  author_bot :: bool
  guild :: "string option"
  created_at :: real
  msg_content :: string

text \<open>
  The attributes of \<^verbatim>\<open>Censorship\<close>: the lexicon, the phonetic index (a dict from
  word to code), the classifier counts, the deletion delay in seconds, the admin
  channel, and the infractions table with its AUTOINCREMENT counter.
\<close>

record censorship =
  banned_words :: "string set"
  exceptions :: "string set"
  soundex_codes :: "string \<rightharpoonup> string"
  ham_counts :: "string \<rightharpoonup> int"
  spam_counts :: "string \<rightharpoonup> int"
  total_ham :: int
  total_spam :: int
  delay :: real
  admin_channel_id :: "nat option"
  infractions :: "infraction list"
  next_id :: nat

text \<open>
  The libraries \<^verbatim>\<open>nltk.word_tokenize\<close> and \<^verbatim>\<open>PorterStemmer.stem\<close>, as
  parameters.
\<close>

record nlp =
  word_tokenize :: "string \<Rightarrow> string list"
  ps_stem :: "string \<Rightarrow> string"

text \<open>
  What the chat platform answers at one moment: whether \<^verbatim>\<open>bot.get_channel\<close> finds
  a channel, how \<^verbatim>\<open>fetch_message\<close> followed by \<^verbatim>\<open>delete\<close> ends for a channel and
  a message, and the admin channel of the configuration.
\<close>

datatype delete_outcome = Deleted | NotFound | Forbidden | OtherError

record env =
  get_channel :: "nat \<Rightarrow> bool"
  delete_message :: "nat \<Rightarrow> nat \<Rightarrow> delete_outcome"
  config_admin_channel_id :: "nat option"

text \<open>
  \<^verbatim>\<open>__init__\<close> with a fresh database and no training file: empty lexicon, empty
  counts, the delay in hours times 3600.
\<close>

definition init :: "real \<Rightarrow> nat option \<Rightarrow> censorship" where
  "init deletion_delay admin =
     \<lparr>banned_words = {}, exceptions = {}, soundex_codes = Map.empty,
      ham_counts = Map.empty, spam_counts = Map.empty, total_ham = 0, total_spam = 0,
      delay = deletion_delay * 3600, admin_channel_id = admin,
      infractions = [], next_id = 1\<rparr>"

subsection \<open>Loading the lexicon (\<^verbatim>\<open>load_banned_words\<close>)\<close>

text \<open>
  A file is its list of lines, or \<open>None\<close> when it does not exist.
  \<^verbatim>\<open>
  for line in f:
      word = line.strip()
      if word and not word.startswith('#'):
          words.add(word.lower())
  \<close>
\<close>

definition load_words_from_file :: "string list option \<Rightarrow> string set" where
  "load_words_from_file file =
     (case file of
        None \<Rightarrow> {}
      | Some lines \<Rightarrow>
          fold (\<lambda>line words.
                 (let word = str_strip line
                  in if word \<noteq> [] \<and> \<not> startswith_hash word
                     then insert (str_lower word) words else words))
            lines {})"

text \<open>
  \<^verbatim>\<open>create_soundex_codes\<close>: one entry per word; the call of \<^verbatim>\<open>soundex\<close> raises
  when some word is one on which \<^verbatim>\<open>soundex\<close> raises.
\<close>

definition create_soundex_codes :: "string set \<Rightarrow> py_error + (string \<rightharpoonup> string)" where
  "create_soundex_codes words =
     (if \<exists>word \<in> words. soundex word = Inl IndexError then Inl IndexError
      else Inr (\<lambda>word. if word \<in> words
                        then (case soundex word of Inr code \<Rightarrow> Some code | Inl _ \<Rightarrow> None)
                        else None))"

text \<open>
  \<^verbatim>\<open>
  self.banned_words = await self.load_words_from_file(banned_words_file)
  self.exceptions = await self.load_words_from_file(exceptions_file)
  self.banned_words -= self.exceptions
  self.soundex_codes = self.create_soundex_codes(self.banned_words)
  \<close>
  An exception is caught and logged: the attributes assigned before it keep their new
  values, the index keeps its old one.
\<close>

definition load_banned_words ::
  "string list option \<Rightarrow> string list option \<Rightarrow> censorship \<Rightarrow> censorship" where
  "load_banned_words banned_words_file exceptions_file st =
     (let st1 = st\<lparr>banned_words := load_words_from_file banned_words_file\<rparr>;
          st2 = st1\<lparr>exceptions := load_words_from_file exceptions_file\<rparr>;
          st3 = st2\<lparr>banned_words := banned_words st2 - exceptions st2\<rparr>
      in case create_soundex_codes (banned_words st3) of
           Inl e \<Rightarrow> st3
         | Inr index \<Rightarrow> st3\<lparr>soundex_codes := index\<rparr>)"

subsection \<open>The naive-Bayes score (\<^verbatim>\<open>calculate_spam_probability\<close>)\<close>

text \<open>\<^verbatim>\<open>counts.get(token, 0.0)\<close>.\<close>

definition get_count :: "(string \<rightharpoonup> int) \<Rightarrow> string \<Rightarrow> int" where
  "get_count counts token = (case counts token of None \<Rightarrow> 0 | Some c \<Rightarrow> c)"

text \<open>
  The loop over the tokens; the pair is \<^verbatim>\<open>(spam_likelihood, ham_likelihood)\<close>. A
  division raises \<^verbatim>\<open>ZeroDivisionError\<close> when its divisor is zero.
  \<^verbatim>\<open>
  p_token_spam = (spam_count + 1) / (self.total_spam + 2)
  p_token_ham = (ham_count + 1) / (self.total_ham + 2)
  spam_likelihood *= p_token_spam
  ham_likelihood *= p_token_ham
  \<close>
\<close>

fun likelihood_loop ::
  "censorship \<Rightarrow> real \<times> real \<Rightarrow> string list \<Rightarrow> py_error + real \<times> real" where
  "likelihood_loop st (spam_likelihood, ham_likelihood) [] =
     Inr (spam_likelihood, ham_likelihood)"
| "likelihood_loop st (spam_likelihood, ham_likelihood) (token # rest) =
     (let spam_count = get_count (spam_counts st) token;
          ham_count = get_count (ham_counts st) token
      in if total_spam st + 2 = 0 then Inl ZeroDivisionError
         else if total_ham st + 2 = 0 then Inl ZeroDivisionError
         else
           (let p_token_spam = real_of_int (spam_count + 1) / real_of_int (total_spam st + 2);
                p_token_ham = real_of_int (ham_count + 1) / real_of_int (total_ham st + 2)
            in likelihood_loop st
                 (spam_likelihood * p_token_spam, ham_likelihood * p_token_ham) rest))"

text \<open>
  \<^verbatim>\<open>
  if spam_likelihood + ham_likelihood == 0:
      return 0.0
  spam_probability = spam_likelihood / (spam_likelihood + ham_likelihood)
  \<close>
\<close>

definition calculate_spam_probability :: "censorship \<Rightarrow> string list \<Rightarrow> py_error + real" where
  "calculate_spam_probability st tokens =
     (case likelihood_loop st (1, 1) tokens of
        Inl e \<Rightarrow> Inl e
      | Inr (spam_likelihood, ham_likelihood) \<Rightarrow>
          if spam_likelihood + ham_likelihood = 0 then Inr 0
          else Inr (spam_likelihood / (spam_likelihood + ham_likelihood)))"

subsection \<open>The message check (\<^verbatim>\<open>check_message\<close>)\<close>

text \<open>
  The first loop: \<^verbatim>\<open>for token in stemmed_tokens: if token in self.banned_words:
  return True\<close>.
\<close>

fun lexicon_loop :: "string set \<Rightarrow> string list \<Rightarrow> bool" where
  "lexicon_loop banned [] = False"
| "lexicon_loop banned (token # rest) =
     (if token \<in> banned then True else lexicon_loop banned rest)"

text \<open>
  The second loop: \<^verbatim>\<open>for token in tokens: soundex_code = self.soundex(token);
  if soundex_code in self.soundex_codes.values(): return True\<close>.
\<close>

fun phonetic_loop :: "(string \<rightharpoonup> string) \<Rightarrow> string list \<Rightarrow> py_error + bool" where
  "phonetic_loop index [] = Inr False"
| "phonetic_loop index (token # rest) =
     (case soundex token of
        Inl e \<Rightarrow> Inl e
      | Inr soundex_code \<Rightarrow>
          if soundex_code \<in> ran index then Inr True else phonetic_loop index rest)"

text \<open>\<^verbatim>\<open>tokenize\<close>: \<^verbatim>\<open>tokens = nltk.word_tokenize(text); return tokens\<close>.\<close>

definition tokenize :: "nlp \<Rightarrow> string \<Rightarrow> string list" where
  "tokenize lib text = word_tokenize lib text"

text \<open>
  \<^verbatim>\<open>
  tokens = self.tokenize(content)
  stemmed_tokens = [self.ps.stem(token) for token in tokens]
  \<close>
  then the three loops in turn; the last stage returns \<^verbatim>\<open>spam_probability > 0.9\<close>.
\<close>

definition check_message :: "nlp \<Rightarrow> censorship \<Rightarrow> string \<Rightarrow> py_error + bool" where
  "check_message lib st text =
     (let tokens = tokenize lib text;
          stemmed_tokens = map (ps_stem lib) tokens
      in if lexicon_loop (banned_words st) stemmed_tokens then Inr True
         else
           (case phonetic_loop (soundex_codes st) tokens of
              Inl e \<Rightarrow> Inl e
            | Inr True \<Rightarrow> Inr True
            | Inr False \<Rightarrow>
                (case calculate_spam_probability st tokens of
                   Inl e \<Rightarrow> Inl e
                 | Inr spam_probability \<Rightarrow> Inr (spam_probability > 9 / 10))))"

subsection \<open>The message handler (\<^verbatim>\<open>on_message\<close>)\<close>

text \<open>
  What the handler asks of the platform, in order: a message sent to the admin channel
  (channel, the flagged message), a sleep, and the deletion of a message (channel,
  message).
\<close>

datatype effect = AdminSend nat nat | Sleep real | DeleteRequest nat nat

text \<open>\<^verbatim>\<open>INSERT INTO infractions ...\<close>: the new row gets the next id.\<close>

definition store_infraction :: "message \<Rightarrow> real \<Rightarrow> censorship \<Rightarrow> censorship" where
  "store_infraction m deletion_time' st =
     st\<lparr>infractions := infractions st @
           [\<lparr>row_id = next_id st, message_id = msg_id m, channel_id = msg_channel_id m,
             user_id = msg_author_id m, timestamp = created_at m,
             deletion_time = deletion_time', content = msg_content m\<rparr>],
        next_id := Suc (next_id st)\<rparr>"

text \<open>\<^verbatim>\<open>not self.admin_channel_id\<close>: \<^verbatim>\<open>None\<close> and \<^verbatim>\<open>0\<close> are false.\<close>

definition falsy :: "nat option \<Rightarrow> bool" where
  "falsy a = (a = None \<or> a = Some 0)"

text \<open>
  \<^verbatim>\<open>announce_infraction\<close>: the admin channel is read from the configuration when it
  is not set; nothing is sent when it is still not set, when the channel is not found,
  or when building the embed raises (\<^verbatim>\<open>message.guild\<close> is \<^verbatim>\<open>None\<close>).
\<close>

definition announce_infraction :: "env \<Rightarrow> message \<Rightarrow> censorship \<Rightarrow> censorship \<times> effect list" where
  "announce_infraction e m st =
     (let st1 = (if falsy (admin_channel_id st)
                 then st\<lparr>admin_channel_id := config_admin_channel_id e\<rparr> else st)
      in case admin_channel_id st1 of
           None \<Rightarrow> (st1, [])
         | Some a \<Rightarrow>
             if a = 0 then (st1, [])
             else if get_channel e a \<and> guild m \<noteq> None then (st1, [AdminSend a (msg_id m)])
             else (st1, []))"

text \<open>
  \<^verbatim>\<open>
  if message.author.bot: return
  content = message.content.lower()
  is_inappropriate = self.check_message(content)
  if is_inappropriate:
      deletion_time = time.time() + self.delay
      self.store_infraction(message, deletion_time)
      await self.announce_infraction(message)
      await asyncio.sleep(self.delay)
      try:
          await message.delete()
      except ...
  \<close>
  \<open>now\<close> is \<^verbatim>\<open>time.time()\<close>. An exception of \<^verbatim>\<open>check_message\<close> is caught and
  logged by the handler; so is every outcome of \<^verbatim>\<open>message.delete()\<close>.
\<close>

definition on_message ::
  "nlp \<Rightarrow> env \<Rightarrow> real \<Rightarrow> message \<Rightarrow> censorship \<Rightarrow> censorship \<times> effect list" where
  "on_message lib e now m st =
     (if author_bot m then (st, [])
      else
        (case check_message lib st (str_lower (msg_content m)) of
           Inl err \<Rightarrow> (st, [])
         | Inr False \<Rightarrow> (st, [])
         | Inr True \<Rightarrow>
             (let deletion_time' = now + delay st;
                  st1 = store_infraction m deletion_time' st;
                  (st2, sent) = announce_infraction e m st1
              in (st2, sent @ [Sleep (delay st2), DeleteRequest (msg_channel_id m) (msg_id m)]))))"

subsection \<open>The sweep (\<^verbatim>\<open>delete_expired_messages\<close>)\<close>

text \<open>
  What one pass of the loop did for a row: it asked the platform to delete the message
  (with the outcome), or found no channel and asked nothing.
\<close>

datatype sweep_action = Requested delete_outcome | ChannelMissing

text \<open>
  The body of \<^verbatim>\<open>for row in rows\<close>. Every outcome of the deletion is caught and
  logged inside the loop; the \<^verbatim>\<open>DELETE FROM infractions WHERE id = ?\<close> follows in
  every case.
\<close>

definition process_row ::
  "env \<Rightarrow> infraction \<Rightarrow> censorship \<times> (nat \<times> sweep_action) list
     \<Rightarrow> censorship \<times> (nat \<times> sweep_action) list" where
  "process_row e row acc =
     (let st = fst acc;
          action = (if get_channel e (channel_id row)
                    then Requested (delete_message e (channel_id row) (message_id row))
                    else ChannelMissing)
      in (st\<lparr>infractions := filter (\<lambda>r. row_id r \<noteq> row_id row) (infractions st)\<rparr>,
          snd acc @ [(row_id row, action)]))"

text \<open>
  \<^verbatim>\<open>SELECT id, message_id, channel_id FROM infractions WHERE deletion_time <= ?\<close>
  with \<^verbatim>\<open>current_time = time.time()\<close>, then the loop over the rows fetched.
\<close>

definition delete_expired_messages ::
  "env \<Rightarrow> real \<Rightarrow> censorship \<Rightarrow> censorship \<times> (nat \<times> sweep_action) list" where
  "delete_expired_messages e current_time st =
     (let rows = filter (\<lambda>r. deletion_time r \<le> current_time) (infractions st)
      in fold (process_row e) rows (st, []))"

text \<open>
  The life of the cog: messages arrive, sweeps run, the lexicon is reloaded. A run
  collects what the sweeps did.
\<close>

datatype event =
  Message env real message
| Sweep env real
| Reload "string list option" "string list option"

fun run ::
  "nlp \<Rightarrow> event list \<Rightarrow> censorship \<times> (nat \<times> sweep_action) list
     \<Rightarrow> censorship \<times> (nat \<times> sweep_action) list" where
  "run lib [] acc = acc"
| "run lib (Message e now m # evs) acc =
     run lib evs (fst (on_message lib e now m (fst acc)), snd acc)"
| "run lib (Sweep e now # evs) acc =
     (let (st', done) = delete_expired_messages e now (fst acc)
      in run lib evs (st', snd acc @ done))"
| "run lib (Reload banned_file exceptions_file # evs) acc =
     run lib evs (load_banned_words banned_file exceptions_file (fst acc), snd acc)"

subsection \<open>The table's key\<close>

text \<open>
  \<^verbatim>\<open>id INTEGER PRIMARY KEY AUTOINCREMENT\<close>: the ids of the rows are pairwise different
  and below the counter.
\<close>

definition table_ok :: "censorship \<Rightarrow> bool" where
  "table_ok st =
     (distinct (map row_id (infractions st)) \<and>
      list_all (\<lambda>r. row_id r < next_id st) (infractions st))"

subsection \<open>The score over the floats of Python\<close>

text \<open>
  The arithmetic of Python's \<^verbatim>\<open>float\<close> (IEEE 754 binary64), as far as
  \<^verbatim>\<open>calculate_spam_probability\<close> uses it: the constants \<^verbatim>\<open>0.0\<close> and \<^verbatim>\<open>1.0\<close>, the
  product, sum and quotient of two floats, the true division \<^verbatim>\<open>n / d\<close> of two
  integers, the division \<^verbatim>\<open>x / d\<close> of a float by an integer, and the comparison
  \<^verbatim>\<open>x == 0\<close>. The divisions are those by a divisor that is not zero; a zero divisor
  is the \<^verbatim>\<open>ZeroDivisionError\<close> of the functions below.
\<close>

record 'f arith =
  fzero :: 'f
  fone :: 'f
  fmul :: "'f \<Rightarrow> 'f \<Rightarrow> 'f"
  fadd :: "'f \<Rightarrow> 'f \<Rightarrow> 'f"
  fdiv :: "'f \<Rightarrow> 'f \<Rightarrow> 'f"
  int_div :: "int \<Rightarrow> int \<Rightarrow> 'f"
  float_div_int :: "'f \<Rightarrow> int \<Rightarrow> 'f"
  feq0 :: "'f \<Rightarrow> bool"

text \<open>
  The loop of \<^verbatim>\<open>calculate_spam_probability\<close> over that arithmetic. A count found in
  the dict is an integer, and \<^verbatim>\<open>(spam_count + 1) / (self.total_spam + 2)\<close> divides two
  integers; for a token that is not in the dict, \<^verbatim>\<open>get(token, 0.0)\<close> is the float
  \<^verbatim>\<open>0.0\<close>, \<^verbatim>\<open>0.0 + 1\<close> is \<^verbatim>\<open>1.0\<close>, and the division is that of a float by an
  integer. \<^verbatim>\<open>spam_likelihood *= p_token_spam\<close> is the product of two floats.
\<close>

fun likelihood_loop_float ::
  "'f arith \<Rightarrow> censorship \<Rightarrow> 'f \<times> 'f \<Rightarrow> string list \<Rightarrow> py_error + 'f \<times> 'f" where
  "likelihood_loop_float F st (spam_likelihood, ham_likelihood) [] =
     Inr (spam_likelihood, ham_likelihood)"
| "likelihood_loop_float F st (spam_likelihood, ham_likelihood) (token # rest) =
     (if total_spam st + 2 = 0 then Inl ZeroDivisionError
      else if total_ham st + 2 = 0 then Inl ZeroDivisionError
      else
        (let p_token_spam =
               (case spam_counts st token of
                  None \<Rightarrow> float_div_int F (fone F) (total_spam st + 2)
                | Some spam_count \<Rightarrow> int_div F (spam_count + 1) (total_spam st + 2));
             p_token_ham =
               (case ham_counts st token of
                  None \<Rightarrow> float_div_int F (fone F) (total_ham st + 2)
                | Some ham_count \<Rightarrow> int_div F (ham_count + 1) (total_ham st + 2))
         in likelihood_loop_float F st
              (fmul F spam_likelihood p_token_spam, fmul F ham_likelihood p_token_ham) rest))"

text \<open>
  \<^verbatim>\<open>
  spam_likelihood = ham_likelihood = 1.0
  ...
  if spam_likelihood + ham_likelihood == 0:
      return 0.0
  spam_probability = spam_likelihood / (spam_likelihood + ham_likelihood)
  \<close>
\<close>

definition calculate_spam_probability_float ::
  "'f arith \<Rightarrow> censorship \<Rightarrow> string list \<Rightarrow> py_error + 'f" where
  "calculate_spam_probability_float F st tokens =
     (case likelihood_loop_float F st (fone F, fone F) tokens of
        Inl e \<Rightarrow> Inl e
      | Inr (spam_likelihood, ham_likelihood) \<Rightarrow>
          if feq0 F (fadd F spam_likelihood ham_likelihood) then Inr (fzero F)
          else Inr (fdiv F spam_likelihood (fadd F spam_likelihood ham_likelihood)))"

text \<open>
  The exact arithmetic of the reals. \<open>calculate_spam_probability\<close> above is
  \<open>calculate_spam_probability_float\<close> at this arithmetic.
\<close>

definition real_arith :: "real arith" where
  "real_arith =
     \<lparr>fzero = 0, fone = 1, fmul = (*), fadd = (+), fdiv = (/),
      int_div = (\<lambda>n d. real_of_int n / real_of_int d),
      float_div_int = (\<lambda>x d. x / real_of_int d), feq0 = (\<lambda>x. x = 0)\<rparr>"

text \<open>
  What the score needs of the arithmetic, for a set \<open>unit\<close> of floats: \<^verbatim>\<open>1.0\<close> is in
  the set, the product of two of its members is a member, and the sum of two of its
  members compares equal to zero exactly when both do. The binary64 numbers from
  \<^verbatim>\<open>0.0\<close> to \<^verbatim>\<open>1.0\<close> are such a set: a product of two of them is rounded to one of
  them (possibly to \<^verbatim>\<open>0.0\<close>, on underflow), and a sum of two of them is zero only when
  both are.
\<close>

definition float_laws :: "'f arith \<Rightarrow> ('f \<Rightarrow> bool) \<Rightarrow> bool" where
  "float_laws F unit =
     (unit (fone F) \<and>
      (\<forall>x y. unit x \<and> unit y \<longrightarrow> unit (fmul F x y)) \<and>
      (\<forall>x y. unit x \<and> unit y \<longrightarrow> (feq0 F (fadd F x y) \<longleftrightarrow> feq0 F x \<and> feq0 F y)))"

subsection \<open>The score as the specification words it\<close>

text \<open>
  The Laplace-smoothed likelihoods of one token, \<open>(count + 1) / (total + 2)\<close> with the
  count 0 for a token that was never seen; the two products over the tokens, each
  started at \<^verbatim>\<open>1.0\<close> and multiplied by one likelihood after the other; and the
  posterior, which is defined as \<^verbatim>\<open>0.0\<close> when both products are zero.
\<close>

definition spec_p_token_spam :: "'f arith \<Rightarrow> censorship \<Rightarrow> string \<Rightarrow> 'f" where
  "spec_p_token_spam F st token =
     int_div F (get_count (spam_counts st) token + 1) (total_spam st + 2)"

definition spec_p_token_ham :: "'f arith \<Rightarrow> censorship \<Rightarrow> string \<Rightarrow> 'f" where
  "spec_p_token_ham F st token =
     int_div F (get_count (ham_counts st) token + 1) (total_ham st + 2)"

definition spec_score :: "'f arith \<Rightarrow> censorship \<Rightarrow> string list \<Rightarrow> 'f" where
  "spec_score F st tokens =
     (let spamProduct = foldl (fmul F) (fone F) (map (spec_p_token_spam F st) tokens);
          hamProduct = foldl (fmul F) (fone F) (map (spec_p_token_ham F st) tokens)
      in if feq0 F spamProduct \<and> feq0 F hamProduct then fzero F
         else fdiv F spamProduct (fadd F spamProduct hamProduct))"

subsection \<open>An instance of the libraries for the examples\<close>

text \<open>
  The examples below run the model on lower-case English words and punctuation marks
  separated by single spaces. On such text \<^verbatim>\<open>nltk.word_tokenize\<close> returns the words
  and marks, which is what \<open>split_spaces\<close> does; \<open>porter_sample\<close> gives the Porter
  stems of the words the examples use (\<^verbatim>\<open>running\<close> and \<^verbatim>\<open>runs\<close> both stem to
  \<^verbatim>\<open>run\<close>) and leaves the other tokens of the examples, which are their own stems,
  unchanged.
\<close>

fun split_spaces :: "string \<Rightarrow> string \<Rightarrow> string list" where
  "split_spaces cur [] = (if cur = [] then [] else [cur])"
| "split_spaces cur (c # cs) =
     (if c = CHR '' ''
      then (if cur = [] then split_spaces [] cs else cur # split_spaces [] cs)
      else split_spaces (cur @ [c]) cs)"

definition porter_sample :: "string \<Rightarrow> string" where
  "porter_sample w = (if w = ''running'' \<or> w = ''runs'' then ''run'' else w)"

definition sample_lib :: nlp where
  "sample_lib = \<lparr>word_tokenize = split_spaces [], ps_stem = porter_sample\<rparr>"

text \<open>
  A small arithmetic with underflow, for the examples of the score: it is exact, but a
  product or quotient below 1/1000 becomes 0. It is not the arithmetic of Python; it
  shows with small numbers what binary64 does below \<^verbatim>\<open>2 ** -1074\<close>.
\<close>

definition flush :: "real \<Rightarrow> real" where
  "flush x = (if x < 1 / 1000 then 0 else x)"

definition toy_arith :: "real arith" where
  "toy_arith =
     \<lparr>fzero = 0, fone = 1, fmul = (\<lambda>x y. flush (x * y)), fadd = (+), fdiv = (/),
      int_div = (\<lambda>n d. flush (real_of_int n / real_of_int d)),
      float_div_int = (\<lambda>x d. flush (x / real_of_int d)), feq0 = (\<lambda>x. x = 0)\<rparr>"

subsection \<open>States of the examples\<close>

text \<open>
  Lexicons loaded into a freshly initialised cog (six hours of delay, no admin channel):
  the word \<^verbatim>\<open>run\<close> banned; the word \<^verbatim>\<open>running\<close> banned; \<^verbatim>\<open>run\<close> banned
  with \<^verbatim>\<open>running\<close> excepted; \<^verbatim>\<open>run\<close> and \<^verbatim>\<open>class\<close> banned with
  \<^verbatim>\<open>class\<close> excepted.
\<close>

definition ex_run_banned :: censorship where
  "ex_run_banned = load_banned_words (Some [''# banned words'', ''Run '']) None (init 6 None)"

definition ex_running_banned :: censorship where
  "ex_running_banned =
     load_banned_words (Some [''# banned words'', ''Running '']) None (init 6 None)"

definition ex_run_except_running :: censorship where
  "ex_run_except_running = load_banned_words (Some [''run'']) (Some [''running'']) (init 6 None)"

definition ex_class_excepted :: censorship where
  "ex_class_excepted =
     load_banned_words (Some [''run'', ''class'']) (Some [''class'']) (init 6 None)"

text \<open>
  A message of a user in channel 5, a platform on which every channel is found, every
  deletion ends in an error that is neither not-found nor forbidden, and the admin
  channel is 7.
\<close>

definition ex_msg :: message where
  "ex_msg = \<lparr>msg_id = 42, msg_channel_id = 5, msg_author_id = 9, author_bot = False,
             guild = Some ''server'', created_at = 10, msg_content = ''He runs''\<rparr>"

definition ex_env :: env where
  "ex_env = \<lparr>get_channel = (\<lambda>c. True), delete_message = (\<lambda>c m. OtherError),
             config_admin_channel_id = Some 7\<rparr>"

text \<open>The cog after it has handled the message at time 1000.\<close>

definition ex_pending :: censorship where
  "ex_pending = fst (on_message sample_lib ex_env 1000 ex_msg ex_run_banned)"

text \<open>
  A trained classifier: 98 spam tokens and 198 ham tokens were counted, none of them a
  punctuation mark.
\<close>

definition ex_trained :: censorship where
  "ex_trained =
     ex_run_banned\<lparr>spam_counts := [''buy'' \<mapsto> 98], ham_counts := [''hello'' \<mapsto> 198],
                   total_spam := 98, total_ham := 198\<rparr>"

section \<open>Properties\<close>

subsection \<open>Auxiliary facts\<close>

paragraph \<open>The Soundex loop and the likelihood loop\<close>








lemma lexicon_loop_iff: "lexicon_loop banned ts = (\<exists>t\<in>set ts. t \<in> banned)"
  by (induction ts) auto

lemma soundex_Nil: "soundex [] = Inl IndexError"
  by (simp add: soundex_def str_upper_def)

lemma soundex_nonempty: "w \<noteq> [] \<Longrightarrow> \<exists>c. soundex w = Inr c \<and> length c = 4"
  by (cases w) (simp_all add: soundex_def str_upper_def Let_def)

lemma soundex_Inl_iff: "soundex w = Inl e \<longleftrightarrow> w = [] \<and> e = IndexError"
  by (cases w) (auto simp: soundex_def str_upper_def Let_def)

lemma phonetic_loop_no_empty:
  "[] \<notin> set ts \<Longrightarrow>
   phonetic_loop index ts = Inr (\<exists>t\<in>set ts. \<exists>c. soundex t = Inr c \<and> c \<in> ran index)"
proof (induction ts)
  case Nil
  then show ?case by simp
next
  case (Cons t ts)
  then obtain c where c: "soundex t = Inr c"
    using soundex_nonempty [of t] by auto
  with Cons show ?case by auto
qed

lemma likelihood_loop_returns:
  "total_spam st + 2 \<noteq> 0 \<Longrightarrow> total_ham st + 2 \<noteq> 0 \<Longrightarrow>
   \<exists>sl hl. likelihood_loop st (a, b) ts = Inr (sl, hl)"
  by (induction ts arbitrary: a b) (simp_all add: Let_def)

lemma calculate_spam_probability_returns:
  "total_spam st + 2 \<noteq> 0 \<Longrightarrow> total_ham st + 2 \<noteq> 0 \<Longrightarrow>
   \<exists>p. calculate_spam_probability st ts = Inr p"
  using likelihood_loop_returns [of st 1 1 ts]
  by (auto simp: calculate_spam_probability_def)

lemma calculate_spam_probability_Nil: "calculate_spam_probability st [] = Inr (1 / 2)"
  by (simp add: calculate_spam_probability_def)

paragraph \<open>The three stages of the check\<close>

lemma check_message_lexicon:
  "\<exists>t\<in>set (tokenize lib text). ps_stem lib t \<in> banned_words st \<Longrightarrow>
   check_message lib st text = Inr True"
  by (simp add: check_message_def lexicon_loop_iff)

lemma check_message_later:
  "\<not> (\<exists>t\<in>set (tokenize lib text). ps_stem lib t \<in> banned_words st) \<Longrightarrow>
   check_message lib st text =
     (case phonetic_loop (soundex_codes st) (tokenize lib text) of
        Inl e \<Rightarrow> Inl e
      | Inr True \<Rightarrow> Inr True
      | Inr False \<Rightarrow>
          (case calculate_spam_probability st (tokenize lib text) of
             Inl e \<Rightarrow> Inl e
           | Inr p \<Rightarrow> Inr (p > 9 / 10)))"
  by (simp add: check_message_def lexicon_loop_iff Let_def)







paragraph \<open>The loader\<close>

lemma fold_load_nonempty:
  "[] \<notin> acc \<Longrightarrow>
   [] \<notin> fold (\<lambda>line words.
                 (let word = str_strip line
                  in if word \<noteq> [] \<and> \<not> startswith_hash word
                     then insert (str_lower word) words else words)) lines acc"
  by (induction lines arbitrary: acc) (simp_all add: Let_def str_lower_def)

lemma load_words_nonempty: "[] \<notin> load_words_from_file f"
  by (cases f) (simp_all add: load_words_from_file_def fold_load_nonempty)

lemma create_soundex_codes_returns:
  "[] \<notin> words \<Longrightarrow>
   create_soundex_codes words =
     Inr (\<lambda>word. if word \<in> words
                  then (case soundex word of Inr code \<Rightarrow> Some code | Inl _ \<Rightarrow> None)
                  else None)"
  by (auto simp: create_soundex_codes_def soundex_Inl_iff)

lemma load_banned_words_eq:
  "load_banned_words banned_file exceptions_file st =
     st\<lparr>banned_words := load_words_from_file banned_file - load_words_from_file exceptions_file,
        exceptions := load_words_from_file exceptions_file,
        soundex_codes :=
          (\<lambda>word. if word \<in> load_words_from_file banned_file - load_words_from_file exceptions_file
                   then (case soundex word of Inr code \<Rightarrow> Some code | Inl _ \<Rightarrow> None)
                   else None)\<rparr>"
proof -
  have "[] \<notin> load_words_from_file banned_file - load_words_from_file exceptions_file"
    using load_words_nonempty [of banned_file] by simp
  then show ?thesis
    by (simp add: load_banned_words_def Let_def create_soundex_codes_returns)
qed

lemma soundex_index_Some:
  "(if a \<in> W then (case soundex a of Inr code \<Rightarrow> Some code | Inl _ \<Rightarrow> None) else None) = Some b
     \<longleftrightarrow> a \<in> W \<and> soundex a = Inr b"
  by (cases "soundex a") auto

lemma ran_soundex_index:
  "ran (\<lambda>word. if word \<in> W
               then (case soundex word of Inr code \<Rightarrow> Some code | Inl _ \<Rightarrow> None)
               else None) = {c. \<exists>w\<in>W. soundex w = Inr c}"
  unfolding ran_def soundex_index_Some by blast

lemma load_banned_words_banned:
  "banned_words (load_banned_words bf ef st) = load_words_from_file bf - load_words_from_file ef"
  by (simp add: load_banned_words_eq)

lemma load_banned_words_exceptions:
  "exceptions (load_banned_words bf ef st) = load_words_from_file ef"
  by (simp add: load_banned_words_eq)

lemma load_banned_words_ran:
  "ran (soundex_codes (load_banned_words bf ef st)) =
     {c. \<exists>w \<in> load_words_from_file bf - load_words_from_file ef. soundex w = Inr c}"
proof -
  have "soundex_codes (load_banned_words bf ef st) =
      (\<lambda>word. if word \<in> load_words_from_file bf - load_words_from_file ef
               then (case soundex word of Inr code \<Rightarrow> Some code | Inl _ \<Rightarrow> None)
               else None)"
    unfolding load_banned_words_eq by simp
  then show ?thesis by (simp only: ran_soundex_index)
qed

lemma load_banned_words_other:
  "spam_counts (load_banned_words bf ef st) = spam_counts st"
  "ham_counts (load_banned_words bf ef st) = ham_counts st"
  "total_spam (load_banned_words bf ef st) = total_spam st"
  "total_ham (load_banned_words bf ef st) = total_ham st"
  "delay (load_banned_words bf ef st) = delay st"
  "admin_channel_id (load_banned_words bf ef st) = admin_channel_id st"
  "infractions (load_banned_words bf ef st) = infractions st"
  "next_id (load_banned_words bf ef st) = next_id st"
  by (simp_all add: load_banned_words_eq)

lemma ex_file1: "load_words_from_file (Some [''# banned words'', ''Running '']) = {''running''}"
  by (simp add: load_words_from_file_def str_strip_def is_space_def startswith_hash_def
      str_lower_def lower_char_def)

lemma ex_file_none: "load_words_from_file None = {}"
  by (simp add: load_words_from_file_def)

lemma ex_tokens1: "tokenize sample_lib ''he runs'' = [''he'', ''runs'']"
  by (simp add: tokenize_def sample_lib_def)

lemma ex_soundex: "soundex ''running'' = Inr ''R552''" "soundex ''he'' = Inr ''H000''"
  "soundex ''runs'' = Inr ''R520''" "soundex ''run'' = Inr ''R500''" "soundex ''rum'' = Inr ''R500''"
  by code_simp+

lemma ex_stems: "ps_stem sample_lib ''runs'' = ''run''" "ps_stem sample_lib ''running'' = ''run''"
  "ps_stem sample_lib ''he'' = ''he''"
  by (simp_all add: sample_lib_def porter_sample_def)

paragraph \<open>The index\<close>

lemma dom_soundex_index:
  "[] \<notin> W \<Longrightarrow>
   dom (\<lambda>word. if word \<in> W
               then (case soundex word of Inr code \<Rightarrow> Some code | Inl _ \<Rightarrow> None)
               else None) = W"
proof -
  assume W: "[] \<notin> W"
  have "\<exists>c. soundex w = Inr c" if "w \<in> W" for w
    using soundex_nonempty [of w] that W by auto
  then have "{a. \<exists>b. a \<in> W \<and> soundex a = Inr b} = W" by auto
  then show ?thesis
    unfolding dom_def not_None_eq soundex_index_Some by simp
qed

lemma load_banned_words_dom:
  "dom (soundex_codes (load_banned_words bf ef st)) =
     load_words_from_file bf - load_words_from_file ef"
proof -
  have n: "[] \<notin> load_words_from_file bf - load_words_from_file ef"
    using load_words_nonempty [of bf] by simp
  have "soundex_codes (load_banned_words bf ef st) =
      (\<lambda>word. if word \<in> load_words_from_file bf - load_words_from_file ef
               then (case soundex word of Inr code \<Rightarrow> Some code | Inl _ \<Rightarrow> None)
               else None)"
    unfolding load_banned_words_eq by simp
  then show ?thesis by (simp only: dom_soundex_index [OF n])
qed

lemma ex_files:
  "load_words_from_file (Some [''# banned words'', ''Run '']) = {''run''}"
  "load_words_from_file (Some [''run'']) = {''run''}"
  "load_words_from_file (Some [''running'']) = {''running''}"
  "load_words_from_file (Some [''run'', ''class'']) = {''class'', ''run''}"
  "load_words_from_file (Some [''class'']) = {''class''}"
  by (simp_all add: load_words_from_file_def str_strip_def is_space_def startswith_hash_def
      str_lower_def lower_char_def)

lemma ex_tokens:
  "tokenize sample_lib ''running'' = [''running'']"
  "tokenize sample_lib ''class'' = [''class'']"
  "tokenize sample_lib ''rum'' = [''rum'']"
  "tokenize sample_lib ''he'' = [''he'']"
  "tokenize sample_lib ''buy'' = [''buy'']"
  "tokenize sample_lib [] = []"
  by (simp_all add: tokenize_def sample_lib_def)

lemma ex_empty_token:
  "tokenize (sample_lib\<lparr>word_tokenize := (\<lambda>text. [[]])\<rparr>) text = [[]]"
  "ps_stem sample_lib [] = []"
  by (simp_all add: tokenize_def sample_lib_def porter_sample_def)

lemma ex_stems2: "ps_stem sample_lib ''class'' = ''class''" "ps_stem sample_lib ''rum'' = ''rum''"
  "ps_stem sample_lib ''buy'' = ''buy''"
  by (simp_all add: sample_lib_def porter_sample_def)

lemma ex_soundex2: "soundex ''class'' = Inr ''C420''" "soundex ''buy'' = Inr ''B000''"
  by code_simp+

paragraph \<open>The lexicons of the examples\<close>

lemma ex_run_banned_fields:
  "banned_words ex_run_banned = {''run''}"
  "ran (soundex_codes ex_run_banned) = {''R500''}"
  "spam_counts ex_run_banned = Map.empty" "ham_counts ex_run_banned = Map.empty"
  "total_spam ex_run_banned = 0" "total_ham ex_run_banned = 0"
  by (simp_all add: ex_run_banned_def load_banned_words_banned load_banned_words_ran
      load_banned_words_other ex_files ex_file_none ex_soundex init_def)

lemma ex_running_banned_fields:
  "banned_words ex_running_banned = {''running''}"
  "ran (soundex_codes ex_running_banned) = {''R552''}"
  "spam_counts ex_running_banned = Map.empty" "ham_counts ex_running_banned = Map.empty"
  "total_spam ex_running_banned = 0" "total_ham ex_running_banned = 0"
  by (simp_all add: ex_running_banned_def load_banned_words_banned load_banned_words_ran
      load_banned_words_other ex_file1 ex_file_none ex_soundex init_def)



lemma ex_trained_fields:
  "banned_words ex_trained = {''run''}"
  "ran (soundex_codes ex_trained) = {''R500''}"
  "spam_counts ex_trained = [''buy'' \<mapsto> 98]" "ham_counts ex_trained = [''hello'' \<mapsto> 198]"
  "total_spam ex_trained = 98" "total_ham ex_trained = 198"
  by (simp_all add: ex_trained_def ex_run_banned_fields)


lemma ex_init_fields:
  "spam_counts (init 6 None) = Map.empty" "ham_counts (init 6 None) = Map.empty"
  "total_spam (init 6 None) = 0" "total_ham (init 6 None) = 0"
  by (simp_all add: init_def)

paragraph \<open>The handler\<close>

lemma announce_infraction_fst:
  "fst (announce_infraction e m st) =
     st\<lparr>admin_channel_id :=
          (if falsy (admin_channel_id st) then config_admin_channel_id e
           else admin_channel_id st)\<rparr>"
  by (cases "falsy (admin_channel_id st)")
     (simp_all add: announce_infraction_def Let_def split: option.splits)

lemma announce_infraction_snd:
  "snd (announce_infraction e m st) = [] \<or>
   (\<exists>a. snd (announce_infraction e m st) = [AdminSend a (msg_id m)])"
  by (cases "falsy (admin_channel_id st)")
     (simp_all add: announce_infraction_def Let_def split: option.splits)

lemma announce_infraction_cases:
  "\<exists>a'. fst (announce_infraction e m st) = st\<lparr>admin_channel_id := a'\<rparr>"
  "snd (announce_infraction e m st) = [] \<or> (\<exists>a. snd (announce_infraction e m st) = [AdminSend a (msg_id m)])"
  using announce_infraction_fst announce_infraction_snd by blast+

lemma on_message_unflagged:
  "author_bot m \<or> check_message lib st (str_lower (msg_content m)) \<noteq> Inr True \<Longrightarrow>
   on_message lib e now m st = (st, [])"
  by (auto simp: on_message_def split: sum.splits bool.splits)

lemma on_message_flagged:
  assumes "\<not> author_bot m" and "check_message lib st (str_lower (msg_content m)) = Inr True"
  shows "on_message lib e now m st =
     (fst (announce_infraction e m (store_infraction m (now + delay st) st)),
      snd (announce_infraction e m (store_infraction m (now + delay st) st)) @
        [Sleep (delay st), DeleteRequest (msg_channel_id m) (msg_id m)])"
proof -
  obtain a' where a': "fst (announce_infraction e m (store_infraction m (now + delay st) st)) =
      (store_infraction m (now + delay st) st)\<lparr>admin_channel_id := a'\<rparr>"
    using announce_infraction_cases(1) by blast
  have "delay (fst (announce_infraction e m (store_infraction m (now + delay st) st))) = delay st"
    unfolding a' by (simp add: store_infraction_def)
  then show ?thesis
    using assms by (simp add: on_message_def Let_def split_beta)
qed

lemma ex_lower: "str_lower (msg_content ex_msg) = ''he runs''"
  by (simp add: ex_msg_def str_lower_def lower_char_def)

lemma ex_flagged: "check_message sample_lib ex_run_banned ''he runs'' = Inr True"
  by (simp add: check_message_def ex_run_banned_fields ex_tokens1 ex_stems)

lemma ex_on_message:
  "on_message sample_lib ex_env 1000 ex_msg ex_run_banned =
     (ex_run_banned\<lparr>infractions :=
          [\<lparr>row_id = 1, message_id = 42, channel_id = 5, user_id = 9, timestamp = 10,
            deletion_time = 22600, content = ''He runs''\<rparr>],
        next_id := 2, admin_channel_id := Some 7\<rparr>,
      [AdminSend 7 42, Sleep 21600, DeleteRequest 5 42])"
  by (simp add: on_message_def ex_lower ex_flagged Let_def store_infraction_def
      announce_infraction_def falsy_def)
     (simp add: ex_run_banned_def load_banned_words_other init_def ex_msg_def ex_env_def
      load_banned_words_eq)

paragraph \<open>The sweep\<close>

lemma fold_process_row:
  "fold (process_row e) rows (st, acc) =
     (st\<lparr>infractions := filter (\<lambda>r. row_id r \<notin> row_id ` set rows) (infractions st)\<rparr>,
      acc @ map (\<lambda>row. (row_id row,
                   if get_channel e (channel_id row)
                   then Requested (delete_message e (channel_id row) (message_id row))
                   else ChannelMissing)) rows)"
proof (induction rows arbitrary: st acc)
  case Nil
  then show ?case by simp
next
  case (Cons row rows)
  let ?act = "\<lambda>row. (row_id row,
                   if get_channel e (channel_id row)
                   then Requested (delete_message e (channel_id row) (message_id row))
                   else ChannelMissing)"
  let ?st1 = "st\<lparr>infractions := filter (\<lambda>r. row_id r \<noteq> row_id row) (infractions st)\<rparr>"
  have step: "process_row e row (st, acc) = (?st1, acc @ [?act row])"
    by (simp add: process_row_def Let_def)
  have flt: "filter (\<lambda>r. row_id r \<notin> row_id ` set rows) (infractions ?st1)
      = filter (\<lambda>r. row_id r \<notin> row_id ` set (row # rows)) (infractions st)"
    by (auto intro: filter_cong)
  have "fold (process_row e) (row # rows) (st, acc) =
        fold (process_row e) rows (process_row e row (st, acc))"
    by simp
  also have "\<dots> = fold (process_row e) rows (?st1, acc @ [?act row])"
    by (simp only: step)
  also have "\<dots> = (?st1\<lparr>infractions := filter (\<lambda>r. row_id r \<notin> row_id ` set rows) (infractions ?st1)\<rparr>,
      (acc @ [?act row]) @ map ?act rows)"
    by (rule Cons.IH)
  also have "\<dots> = (st\<lparr>infractions := filter (\<lambda>r. row_id r \<notin> row_id ` set (row # rows)) (infractions st)\<rparr>,
      acc @ map ?act (row # rows))"
    unfolding flt by simp
  finally show ?case .
qed

lemma sweep_eq:
  "delete_expired_messages e t st =
     (st\<lparr>infractions :=
          filter (\<lambda>r. row_id r \<notin> row_id ` set (filter (\<lambda>r. deletion_time r \<le> t) (infractions st)))
            (infractions st)\<rparr>,
      map (\<lambda>row. (row_id row,
                   if get_channel e (channel_id row)
                   then Requested (delete_message e (channel_id row) (message_id row))
                   else ChannelMissing))
        (filter (\<lambda>r. deletion_time r \<le> t) (infractions st)))"
  by (simp add: delete_expired_messages_def fold_process_row)

lemma sweep_log_ids:
  "map fst (snd (delete_expired_messages e t st)) =
     map row_id (filter (\<lambda>r. deletion_time r \<le> t) (infractions st))"
  by (simp add: sweep_eq comp_def)

lemma sweep_rows:
  "set (infractions (fst (delete_expired_messages e t st))) =
     {r \<in> set (infractions st).
        row_id r \<notin> row_id ` {r' \<in> set (infractions st). deletion_time r' \<le> t}}"
  by (auto simp: sweep_eq)

lemma sweep_other:
  "next_id (fst (delete_expired_messages e t st)) = next_id st"
  by (simp add: sweep_eq)

lemma sweep_no_due_left:
  "r \<in> set (infractions (fst (delete_expired_messages e t st))) \<Longrightarrow> \<not> deletion_time r \<le> t"
  by (auto simp: sweep_rows)

lemma sweep_subset:
  "set (infractions (fst (delete_expired_messages e t st))) \<subseteq> set (infractions st)"
  by (auto simp: sweep_rows)

lemma sweep_distinct:
  "distinct (map row_id (infractions st)) \<Longrightarrow>
   distinct (map row_id (infractions (fst (delete_expired_messages e t st))))"
  by (simp add: sweep_eq distinct_map_filter)

lemma sweep_table_ok: "table_ok st \<Longrightarrow> table_ok (fst (delete_expired_messages e t st))"
  unfolding table_ok_def list_all_iff
  using sweep_distinct [of st e t] sweep_subset [of e t st] sweep_other [of e t st] by auto

paragraph \<open>Runs of the cog\<close>

lemma ex_pending_rows:
  "infractions ex_pending =
     [\<lparr>row_id = 1, message_id = 42, channel_id = 5, user_id = 9, timestamp = 10,
       deletion_time = 22600, content = ''He runs''\<rparr>]"
  by (simp add: ex_pending_def ex_on_message)

lemma ex_env_fields: "get_channel ex_env c" "delete_message ex_env c m = OtherError"
  by (simp_all add: ex_env_def)

lemma on_message_table:
  "(infractions (fst (on_message lib e now m st)) = infractions st \<and>
    next_id (fst (on_message lib e now m st)) = next_id st) \<or>
   (\<exists>row. infractions (fst (on_message lib e now m st)) = infractions st @ [row] \<and>
          row_id row = next_id st \<and>
          next_id (fst (on_message lib e now m st)) = Suc (next_id st))"
proof (cases "author_bot m \<or> check_message lib st (str_lower (msg_content m)) \<noteq> Inr True")
  case True
  then show ?thesis by (simp add: on_message_unflagged)
next
  case False
  then have eq: "fst (on_message lib e now m st) =
      fst (announce_infraction e m (store_infraction m (now + delay st) st))"
    using on_message_flagged [of m lib st e now] by simp
  show ?thesis
    unfolding eq announce_infraction_fst by (simp add: store_infraction_def)
qed

lemma on_message_table_ok:
  assumes ok: "table_ok st"
  shows "table_ok (fst (on_message lib e now m st))"
    and "next_id st \<le> next_id (fst (on_message lib e now m st))"
    and "row_id ` set (infractions (fst (on_message lib e now m st)))
           \<subseteq> insert (next_id st) (row_id ` set (infractions st))"
proof -
  let ?st' = "fst (on_message lib e now m st)"
  have d: "distinct (map row_id (infractions st))"
    and b: "\<And>r. r \<in> set (infractions st) \<Longrightarrow> row_id r < next_id st"
    using ok by (simp_all add: table_ok_def list_all_iff)
  consider (same) "infractions ?st' = infractions st" "next_id ?st' = next_id st"
    | (new) row where "infractions ?st' = infractions st @ [row]" "row_id row = next_id st"
        "next_id ?st' = Suc (next_id st)"
    using on_message_table [of lib e now m st] by blast
  then have "table_ok ?st' \<and> next_id st \<le> next_id ?st' \<and>
      row_id ` set (infractions ?st') \<subseteq> insert (next_id st) (row_id ` set (infractions st))"
  proof cases
    case same
    then show ?thesis using ok by (auto simp: table_ok_def)
  next
    case new
    have fresh: "next_id st \<notin> row_id ` set (infractions st)"
      using b by fastforce
    have "distinct (map row_id (infractions ?st'))"
      using d fresh new by simp
    moreover have "\<forall>r\<in>set (infractions ?st'). row_id r < next_id ?st'"
      using b new by (auto simp: less_Suc_eq)
    ultimately show ?thesis
      using new by (simp add: table_ok_def list_all_iff)
  qed
  then show "table_ok ?st'" and "next_id st \<le> next_id ?st'"
    and "row_id ` set (infractions ?st') \<subseteq> insert (next_id st) (row_id ` set (infractions st))"
    by blast+
qed

lemma run_distinct:
  assumes "table_ok st" and "distinct (map fst acc)"
    and "\<forall>i\<in>fst ` set acc. i < next_id st \<and> i \<notin> row_id ` set (infractions st)"
  shows "distinct (map fst (snd (run lib evs (st, acc))))"
  using assms
proof (induction evs arbitrary: st acc)
  case Nil
  then show ?case by simp
next
  case (Cons ev evs)
  show ?case
  proof (cases ev)
    case (Message e now m)
    let ?st' = "fst (on_message lib e now m st)"
    have "table_ok ?st'" using Cons.prems(1) by (rule on_message_table_ok(1))
    moreover have "\<forall>i\<in>fst ` set acc. i < next_id ?st' \<and> i \<notin> row_id ` set (infractions ?st')"
      using Cons.prems(3) on_message_table_ok(2,3) [OF Cons.prems(1), of lib e now m]
      by fastforce
    ultimately show ?thesis
      using Cons.IH [of ?st' acc] Cons.prems(2) Message by simp
  next
    case (Sweep e t)
    let ?st' = "fst (delete_expired_messages e t st)"
    let ?d = "snd (delete_expired_messages e t st)"
    let ?due = "filter (\<lambda>r. deletion_time r \<le> t) (infractions st)"
    have ids: "map fst ?d = map row_id ?due" by (rule sweep_log_ids)
    have ok: "table_ok ?st'" using Cons.prems(1) by (rule sweep_table_ok)
    have d1: "distinct (map fst ?d)"
      unfolding ids using Cons.prems(1) by (simp add: table_ok_def distinct_map_filter)
    have sub: "fst ` set ?d \<subseteq> row_id ` set (infractions st)"
      using ids by (metis (no_types, lifting) filter_is_subset image_mono set_map)
    have "fst ` set acc \<inter> fst ` set ?d = {}"
      using Cons.prems(3) sub by blast
    then have d2: "distinct (map fst (acc @ ?d))"
      using Cons.prems(2) d1 by simp
    have new: "\<forall>i\<in>fst ` set ?d. i < next_id ?st' \<and> i \<notin> row_id ` set (infractions ?st')"
    proof
      fix i assume i: "i \<in> fst ` set ?d"
      then have "i \<in> set (map row_id ?due)" using ids by (metis set_map)
      then obtain r where r: "r \<in> set (infractions st)" "deletion_time r \<le> t" "i = row_id r"
        by auto
      have "i < next_id st" using r Cons.prems(1) by (auto simp: table_ok_def list_all_iff)
      moreover have "i \<in> row_id ` {r' \<in> set (infractions st). deletion_time r' \<le> t}"
        using r by blast
      then have "i \<notin> row_id ` set (infractions ?st')"
        unfolding sweep_rows by blast
      ultimately show "i < next_id ?st' \<and> i \<notin> row_id ` set (infractions ?st')"
        by (simp add: sweep_other)
    qed
    have old: "\<forall>i\<in>fst ` set acc. i < next_id ?st' \<and> i \<notin> row_id ` set (infractions ?st')"
      using Cons.prems(3) sweep_subset [of e t st] by (auto simp: sweep_other)
    have inv: "\<forall>i\<in>fst ` set (acc @ ?d). i < next_id ?st' \<and> i \<notin> row_id ` set (infractions ?st')"
      using old new by auto
    show ?thesis
      using Cons.IH [OF ok d2 inv] Sweep by (simp add: split_beta)
  next
    case (Reload bf ef)
    let ?st' = "load_banned_words bf ef st"
    have "table_ok ?st'"
      using Cons.prems(1) by (simp add: table_ok_def load_banned_words_other)
    moreover have "\<forall>i\<in>fst ` set acc. i < next_id ?st' \<and> i \<notin> row_id ` set (infractions ?st')"
      using Cons.prems(3) by (simp add: load_banned_words_other)
    ultimately show ?thesis
      using Cons.IH [of ?st' acc] Cons.prems(2) Reload by simp
  qed
qed

paragraph \<open>The run of the examples\<close>

lemma ex_run_banned_table:
  "infractions ex_run_banned = []" "next_id ex_run_banned = 1" "delay ex_run_banned = 21600"
  by (simp_all add: ex_run_banned_def load_banned_words_other init_def)

lemma ex_table_ok: "table_ok ex_run_banned"
  by (simp add: table_ok_def ex_run_banned_table)

lemma ex_run_step1:
  "run sample_lib [Message ex_env 1000 ex_msg, Sweep ex_env 22600, Sweep ex_env 22660]
          (ex_run_banned, []) =
   run sample_lib [Sweep ex_env 22600, Sweep ex_env 22660] (ex_pending, [])"
  by (simp add: ex_pending_def)

lemma ex_sweep1:
  "delete_expired_messages ex_env 22600 ex_pending =
     (ex_pending\<lparr>infractions := []\<rparr>, [(1, Requested OtherError)])"
  by (simp add: sweep_eq ex_pending_rows ex_env_fields)

lemma ex_sweep2:
  "delete_expired_messages ex_env 22660 (ex_pending\<lparr>infractions := []\<rparr>) =
     (ex_pending\<lparr>infractions := []\<rparr>, [])"
  by (simp add: sweep_eq)

lemma ex_run:
  "snd (run sample_lib [Message ex_env 1000 ex_msg, Sweep ex_env 22600, Sweep ex_env 22660]
          (ex_run_banned, [])) = [(1, Requested OtherError)]"
  unfolding ex_run_step1 by (simp add: ex_sweep1 ex_sweep2)

paragraph \<open>The score over an arithmetic\<close>

lemma likelihood_loop_real_instance:
  "likelihood_loop st (a, b) ts = likelihood_loop_float real_arith st (a, b) ts"
  by (induction ts arbitrary: a b)
     (simp_all add: Let_def real_arith_def get_count_def split: option.splits)

lemma calculate_spam_probability_real_instance:
  "calculate_spam_probability st ts = calculate_spam_probability_float real_arith st ts"
proof -
  have "likelihood_loop st (1, 1) ts = likelihood_loop_float real_arith st (1, 1) ts"
    by (rule likelihood_loop_real_instance)
  then show ?thesis
    by (simp add: calculate_spam_probability_def calculate_spam_probability_float_def
        real_arith_def split: sum.splits)
qed

lemma likelihood_loop_float_products:
  assumes "total_spam st + 2 \<noteq> 0" and "total_ham st + 2 \<noteq> 0"
    and "float_div_int F (fone F) (total_spam st + 2) = int_div F 1 (total_spam st + 2)"
    and "float_div_int F (fone F) (total_ham st + 2) = int_div F 1 (total_ham st + 2)"
  shows "likelihood_loop_float F st (a, b) ts =
     Inr (foldl (fmul F) a (map (spec_p_token_spam F st) ts),
          foldl (fmul F) b (map (spec_p_token_ham F st) ts))"
proof (induction ts arbitrary: a b)
  case Nil
  then show ?case by simp
next
  case (Cons t ts)
  have s: "(case spam_counts st t of
              None \<Rightarrow> float_div_int F (fone F) (total_spam st + 2)
            | Some c \<Rightarrow> int_div F (c + 1) (total_spam st + 2)) = spec_p_token_spam F st t"
    using assms(3) by (simp add: spec_p_token_spam_def get_count_def split: option.splits)
  have h: "(case ham_counts st t of
              None \<Rightarrow> float_div_int F (fone F) (total_ham st + 2)
            | Some c \<Rightarrow> int_div F (c + 1) (total_ham st + 2)) = spec_p_token_ham F st t"
    using assms(4) by (simp add: spec_p_token_ham_def get_count_def split: option.splits)
  show ?case
    using assms(1,2) by (simp add: Let_def s h Cons.IH)
qed

lemma foldl_unit:
  assumes "float_laws F unit"
  shows "unit a \<Longrightarrow> \<forall>x\<in>set xs. unit x \<Longrightarrow> unit (foldl (fmul F) a xs)"
proof (induction xs arbitrary: a)
  case Nil
  then show ?case by simp
next
  case (Cons x xs)
  have "unit (fmul F a x)"
    using assms Cons.prems by (simp add: float_laws_def)
  then show ?case using Cons by simp
qed

lemma toy_laws: "float_laws toy_arith (\<lambda>x. 0 \<le> x)"
  by (simp add: float_laws_def toy_arith_def flush_def add_nonneg_eq_0_iff)

lemma real_laws: "float_laws real_arith (\<lambda>x. 0 \<le> x)"
  by (simp add: float_laws_def real_arith_def add_nonneg_eq_0_iff)

subsection \<open>The order of the three checks\<close>

text \<open>
  Claim C1. \<^verbatim>\<open>check_message\<close> flags a message exactly when a detector fires, and the
  detectors run in the order lexicon, phonetic, Bayesian, the first match winning.
  \<^item> When the stem of some token is in the banned set, the result is \<open>True\<close>, whatever
    the later stages would do.
  \<^item> Otherwise the phonetic loop decides: when it returns \<open>True\<close> the result is
    \<open>True\<close> and the score is not computed (the result does not depend on it, even
    where computing it would raise); when it raises, so does the check; when it
    returns \<open>False\<close> the result is that of the Bayesian stage, \<open>score > 0.9\<close>.
  \<^item> On a text none of whose tokens is empty, and with divisors \<open>total + 2\<close> that are
    not zero, nothing raises and the result is the disjunction: some stemmed token is
    banned, or the Soundex code of some raw token is a code of the index, or the score
    over the raw tokens exceeds 0.9.
\<close>

theorem check_message_first_match_wins:
  "((\<exists>t\<in>set (tokenize lib text). ps_stem lib t \<in> banned_words st) \<longrightarrow>
      check_message lib st text = Inr True) \<and>
   (\<not> (\<exists>t\<in>set (tokenize lib text). ps_stem lib t \<in> banned_words st) \<longrightarrow>
      (phonetic_loop (soundex_codes st) (tokenize lib text) = Inr True \<longrightarrow>
         check_message lib st text = Inr True) \<and>
      (phonetic_loop (soundex_codes st) (tokenize lib text) = Inl e \<longrightarrow>
         check_message lib st text = Inl e) \<and>
      (phonetic_loop (soundex_codes st) (tokenize lib text) = Inr False \<longrightarrow>
         check_message lib st text =
           (case calculate_spam_probability st (tokenize lib text) of
              Inl e' \<Rightarrow> Inl e'
            | Inr p \<Rightarrow> Inr (p > 9 / 10)))) \<and>
   ([] \<notin> set (tokenize lib text) \<and> total_spam st + 2 \<noteq> 0 \<and> total_ham st + 2 \<noteq> 0 \<longrightarrow>
      (\<exists>p. calculate_spam_probability st (tokenize lib text) = Inr p \<and>
           check_message lib st text =
             Inr ((\<exists>t\<in>set (tokenize lib text). ps_stem lib t \<in> banned_words st) \<or>
                  (\<exists>t\<in>set (tokenize lib text).
                     \<exists>c. soundex t = Inr c \<and> c \<in> ran (soundex_codes st)) \<or>
                  p > 9 / 10)))"
proof (intro conjI impI)
  assume "\<exists>t\<in>set (tokenize lib text). ps_stem lib t \<in> banned_words st"
  then show "check_message lib st text = Inr True" by (rule check_message_lexicon)
next
  assume "\<not> (\<exists>t\<in>set (tokenize lib text). ps_stem lib t \<in> banned_words st)"
    and "phonetic_loop (soundex_codes st) (tokenize lib text) = Inr True"
  then show "check_message lib st text = Inr True"
    by (simp add: check_message_later)
next
  assume "\<not> (\<exists>t\<in>set (tokenize lib text). ps_stem lib t \<in> banned_words st)"
    and "phonetic_loop (soundex_codes st) (tokenize lib text) = Inl e"
  then show "check_message lib st text = Inl e"
    by (simp add: check_message_later)
next
  assume "\<not> (\<exists>t\<in>set (tokenize lib text). ps_stem lib t \<in> banned_words st)"
    and "phonetic_loop (soundex_codes st) (tokenize lib text) = Inr False"
  then show "check_message lib st text =
           (case calculate_spam_probability st (tokenize lib text) of
              Inl e' \<Rightarrow> Inl e'
            | Inr p \<Rightarrow> Inr (p > 9 / 10))"
    by (simp add: check_message_later)
next
  assume a: "[] \<notin> set (tokenize lib text) \<and> total_spam st + 2 \<noteq> 0 \<and> total_ham st + 2 \<noteq> 0"
  let ?ts = "tokenize lib text"
  obtain p where p: "calculate_spam_probability st ?ts = Inr p"
    using calculate_spam_probability_returns [of st ?ts] a by auto
  have ph: "phonetic_loop (soundex_codes st) ?ts =
      Inr (\<exists>t\<in>set ?ts. \<exists>c. soundex t = Inr c \<and> c \<in> ran (soundex_codes st))"
    using a by (simp add: phonetic_loop_no_empty)
  have "check_message lib st text =
             Inr ((\<exists>t\<in>set ?ts. ps_stem lib t \<in> banned_words st) \<or>
                  (\<exists>t\<in>set ?ts. \<exists>c. soundex t = Inr c \<and> c \<in> ran (soundex_codes st)) \<or>
                  p > 9 / 10)"
  proof (cases "\<exists>t\<in>set ?ts. ps_stem lib t \<in> banned_words st")
    case True
    then show ?thesis by (simp add: check_message_lexicon)
  next
    case False
    then show ?thesis
      using ph p by (auto simp: check_message_later split: bool.splits)
  qed
  with p show "\<exists>p. calculate_spam_probability st ?ts = Inr p \<and>
           check_message lib st text =
             Inr ((\<exists>t\<in>set ?ts. ps_stem lib t \<in> banned_words st) \<or>
                  (\<exists>t\<in>set ?ts. \<exists>c. soundex t = Inr c \<and> c \<in> ran (soundex_codes st)) \<or>
                  p > 9 / 10)"
    by blast
qed

text \<open>
  With \<^verbatim>\<open>run\<close> banned: \<^verbatim>\<open>he runs\<close> is flagged by the lexicon and \<^verbatim>\<open>rum\<close> by
  its Soundex code, both in a state in which the Bayesian stage would divide by zero;
  \<^verbatim>\<open>he\<close> reaches the Bayesian stage, which raises in that state and answers
  \<open>False\<close> (a score of 0.5) with the untrained model; \<^verbatim>\<open>buy\<close> is flagged by a score
  of 0.99; and were the tokenizer to return an empty token, the phonetic loop would raise
  \<^verbatim>\<open>IndexError\<close>.
\<close>

theorem check_message_first_match_wins_witness:
  "check_message sample_lib (ex_run_banned\<lparr>total_spam := - 2\<rparr>) ''he runs'' = Inr True \<and>
   check_message sample_lib (ex_run_banned\<lparr>total_spam := - 2\<rparr>) ''rum'' = Inr True \<and>
   check_message sample_lib (ex_run_banned\<lparr>total_spam := - 2\<rparr>) ''he'' = Inl ZeroDivisionError \<and>
   check_message sample_lib ex_run_banned ''he'' = Inr False \<and>
   check_message sample_lib
     (ex_run_banned\<lparr>spam_counts := [''buy'' \<mapsto> 98], total_spam := 98, total_ham := 98\<rparr>) ''buy'' = Inr True \<and>
   check_message (sample_lib\<lparr>word_tokenize := (\<lambda>text. [[]])\<rparr>) ex_run_banned ''x'' = Inl IndexError"
  using check_message_first_match_wins
          [of "sample_lib\<lparr>word_tokenize := (\<lambda>text. [[]])\<rparr>" "''x''" ex_run_banned IndexError]
        check_message_first_match_wins
          [of sample_lib "''he runs''" "ex_run_banned\<lparr>total_spam := - 2\<rparr>" ZeroDivisionError]
        check_message_first_match_wins
          [of sample_lib "''rum''" "ex_run_banned\<lparr>total_spam := - 2\<rparr>" ZeroDivisionError]
        check_message_first_match_wins
          [of sample_lib "''he''" "ex_run_banned\<lparr>total_spam := - 2\<rparr>" ZeroDivisionError]
        check_message_first_match_wins
          [of sample_lib "''he''" ex_run_banned ZeroDivisionError]
        check_message_first_match_wins
          [of sample_lib "''buy''"
              "ex_run_banned\<lparr>spam_counts := [''buy'' \<mapsto> 98], total_spam := 98, total_ham := 98\<rparr>"
              ZeroDivisionError]
  by (simp add: ex_run_banned_fields ex_tokens1 ex_tokens ex_stems ex_stems2 ex_soundex ex_soundex2
      calculate_spam_probability_def get_count_def ex_empty_token soundex_Nil)

subsection \<open>A deletion that fails with another error\<close>

text \<open>
  Claim C2, as amended. The claim says that after a transient error the row stays in
  the table and is selected again by the next sweep. The sweep deletes the row after
  the attempt whatever its outcome: when the deletion of a due row ends in an error that
  is neither not-found nor forbidden, the sweep has asked for the deletion once, no row
  with that id is left in the table after the sweep, and a later sweep (at any time, on
  any platform) does nothing for that id.
\<close>

theorem transient_failure_row_removed:
  assumes r: "r \<in> set (infractions st)" and due: "deletion_time r \<le> t"
    and ch: "get_channel e (channel_id r)"
    and err: "delete_message e (channel_id r) (message_id r) = OtherError"
  shows "(row_id r, Requested OtherError) \<in> set (snd (delete_expired_messages e t st)) \<and>
         (\<forall>r'\<in>set (infractions (fst (delete_expired_messages e t st))). row_id r' \<noteq> row_id r) \<and>
         row_id r \<notin> fst ` set (snd (delete_expired_messages e' t'
                                     (fst (delete_expired_messages e t st))))"
proof (intro conjI)
  have "r \<in> set (filter (\<lambda>r. deletion_time r \<le> t) (infractions st))"
    using r due by simp
  then show "(row_id r, Requested OtherError) \<in> set (snd (delete_expired_messages e t st))"
    using ch err by (force simp: sweep_eq)
  show gone: "\<forall>r'\<in>set (infractions (fst (delete_expired_messages e t st))). row_id r' \<noteq> row_id r"
    using r due by (auto simp: sweep_rows)
  have "fst ` set (snd (delete_expired_messages e' t' (fst (delete_expired_messages e t st))))
      \<subseteq> row_id ` set (infractions (fst (delete_expired_messages e t st)))"
    using sweep_log_ids [of e' t' "fst (delete_expired_messages e t st)"]
    by (metis (no_types, lifting) filter_is_subset image_mono set_map)
  then show "row_id r \<notin> fst ` set (snd (delete_expired_messages e' t'
                                     (fst (delete_expired_messages e t st))))"
    using gone by auto
qed

text \<open>
  The row stored for the message of the examples is due at 22600; the deletion fails;
  the sweep at 22660 has no entry for row 1.
\<close>

theorem transient_failure_row_removed_witness:
  "(1, Requested OtherError) \<in> set (snd (delete_expired_messages ex_env 22600 ex_pending)) \<and>
   1 \<notin> fst ` set (snd (delete_expired_messages ex_env 22660
                        (fst (delete_expired_messages ex_env 22600 ex_pending))))"
  using transient_failure_row_removed
          [of "\<lparr>row_id = 1, message_id = 42, channel_id = 5, user_id = 9, timestamp = 10,
                deletion_time = 22600, content = ''He runs''\<rparr>" ex_pending 22600 ex_env ex_env 22660]
  by (simp add: ex_pending_rows ex_env_fields)

text \<open>
  The claim fails on that row: after the sweep whose deletion failed the table is empty,
  and the next sweep selects nothing.
\<close>

theorem transient_failure_counterexample:
  "snd (delete_expired_messages ex_env 22600 ex_pending) = [(1, Requested OtherError)] \<and>
   infractions (fst (delete_expired_messages ex_env 22600 ex_pending)) = [] \<and>
   snd (delete_expired_messages ex_env 22660
          (fst (delete_expired_messages ex_env 22600 ex_pending))) = []"
  by (simp add: sweep_eq ex_pending_rows ex_env_fields)

subsection \<open>The lexicon check and stemming\<close>

text \<open>
  Claim C3, as amended. The claim says that lexicon words are stemmed when they are
  loaded, so that a token \<open>t\<close> with \<open>stem t = stem w\<close> for a banned word \<open>w\<close> is
  flagged. The loader does not stem: the banned set is the set of the lower-cased words
  of the file, less the exceptions. The lexicon loop fires exactly when the stem of some
  token is itself a member of the banned set; so for a banned word \<open>w\<close> and a message
  with a token \<open>t\<close> such that \<open>stem t = w\<close>, \<^verbatim>\<open>check_message\<close> returns \<open>True\<close>.
\<close>

theorem lexicon_check_matches_stem_in_banned_set:
  "banned_words (load_banned_words banned_file exceptions_file st0) =
     load_words_from_file banned_file - load_words_from_file exceptions_file \<and>
   (lexicon_loop (banned_words st) (map (ps_stem lib) (tokenize lib text)) \<longleftrightarrow>
      (\<exists>t\<in>set (tokenize lib text). ps_stem lib t \<in> banned_words st)) \<and>
   (t \<in> set (tokenize lib text) \<and> w \<in> banned_words st \<and> ps_stem lib t = w \<longrightarrow>
      check_message lib st text = Inr True)"
proof (intro conjI impI)
  show "banned_words (load_banned_words banned_file exceptions_file st0) =
     load_words_from_file banned_file - load_words_from_file exceptions_file"
    by (simp add: load_banned_words_def Let_def split: sum.splits)
next
  show "lexicon_loop (banned_words st) (map (ps_stem lib) (tokenize lib text)) \<longleftrightarrow>
      (\<exists>t\<in>set (tokenize lib text). ps_stem lib t \<in> banned_words st)"
    by (simp add: lexicon_loop_iff)
next
  assume "t \<in> set (tokenize lib text) \<and> w \<in> banned_words st \<and> ps_stem lib t = w"
  then have "\<exists>t\<in>set (tokenize lib text). ps_stem lib t \<in> banned_words st" by blast
  then show "check_message lib st text = Inr True" by (rule check_message_lexicon)
qed

text \<open>
  With \<^verbatim>\<open>run\<close> banned, the token \<^verbatim>\<open>runs\<close> of \<^verbatim>\<open>he runs\<close> has the stem
  \<^verbatim>\<open>run\<close>.
\<close>

theorem lexicon_check_matches_stem_in_banned_set_witness:
  "banned_words ex_run_banned = {''run''} \<and>
   lexicon_loop (banned_words ex_run_banned)
     (map (ps_stem sample_lib) (tokenize sample_lib ''he runs'')) \<and>
   check_message sample_lib ex_run_banned ''he runs'' = Inr True"
  using lexicon_check_matches_stem_in_banned_set
          [of "Some [''# banned words'', ''Run '']" None "init 6 None" ex_run_banned sample_lib
              "''he runs''" "''runs''" "''run''"]
  by (simp add: ex_run_banned_fields ex_tokens1 ex_stems)

text \<open>
  The claim fails with \<^verbatim>\<open>running\<close> banned: \<^verbatim>\<open>runs\<close> has the same stem as
  \<^verbatim>\<open>running\<close>, but the stem \<^verbatim>\<open>run\<close> is not in the banned set, the codes
  \<^verbatim>\<open>R520\<close> and \<^verbatim>\<open>R552\<close> differ and the score is 0.5: the message is not flagged.
\<close>

theorem lexicon_words_not_stemmed_counterexample:
  "ps_stem sample_lib ''runs'' = ps_stem sample_lib ''running'' \<and>
   ''running'' \<in> banned_words ex_running_banned \<and>
   ''runs'' \<in> set (tokenize sample_lib ''he runs'') \<and>
   check_message sample_lib ex_running_banned ''he runs'' = Inr False"
  by (simp add: ex_running_banned_fields ex_tokens1 ex_stems check_message_def
      ex_soundex calculate_spam_probability_def get_count_def)

subsection \<open>Letters of the same Soundex class\<close>




subsection \<open>What the handler does\<close>

text \<open>
  Claim C5, as amended. The claim says that the handler never deletes a message itself.
  For a flagged message of a user the handler stores the infraction (the new row, the
  counter and possibly the cached admin channel are the only changes of the state),
  sends at most one announcement, then sleeps for the delay and asks the platform to
  delete the message itself. For a message of a bot, a message that is not flagged, or
  a check that raises, it changes nothing and asks for nothing.
\<close>

theorem on_message_effects:
  "(author_bot m \<or> check_message lib st (str_lower (msg_content m)) \<noteq> Inr True \<longrightarrow>
      on_message lib e now m st = (st, [])) \<and>
   (\<not> author_bot m \<and> check_message lib st (str_lower (msg_content m)) = Inr True \<longrightarrow>
      (\<exists>a'. fst (on_message lib e now m st) =
           st\<lparr>infractions := infractions st @
                 [\<lparr>row_id = next_id st, message_id = msg_id m, channel_id = msg_channel_id m,
                   user_id = msg_author_id m, timestamp = created_at m,
                   deletion_time = now + delay st, content = msg_content m\<rparr>],
              next_id := Suc (next_id st), admin_channel_id := a'\<rparr>) \<and>
      (\<exists>sent. snd (on_message lib e now m st) =
           sent @ [Sleep (delay st), DeleteRequest (msg_channel_id m) (msg_id m)] \<and>
           (sent = [] \<or> (\<exists>a. sent = [AdminSend a (msg_id m)]))))"
proof (intro conjI impI)
  assume "author_bot m \<or> check_message lib st (str_lower (msg_content m)) \<noteq> Inr True"
  then show "on_message lib e now m st = (st, [])" by (rule on_message_unflagged)
next
  assume a: "\<not> author_bot m \<and> check_message lib st (str_lower (msg_content m)) = Inr True"
  let ?st1 = "store_infraction m (now + delay st) st"
  have eq: "on_message lib e now m st =
     (fst (announce_infraction e m ?st1),
      snd (announce_infraction e m ?st1) @
        [Sleep (delay st), DeleteRequest (msg_channel_id m) (msg_id m)])"
    using a on_message_flagged by blast
  obtain a' where a': "fst (announce_infraction e m ?st1) = ?st1\<lparr>admin_channel_id := a'\<rparr>"
    using announce_infraction_cases(1) by blast
  show "\<exists>a'. fst (on_message lib e now m st) =
           st\<lparr>infractions := infractions st @
                 [\<lparr>row_id = next_id st, message_id = msg_id m, channel_id = msg_channel_id m,
                   user_id = msg_author_id m, timestamp = created_at m,
                   deletion_time = now + delay st, content = msg_content m\<rparr>],
              next_id := Suc (next_id st), admin_channel_id := a'\<rparr>"
    unfolding eq fst_conv a' by (rule exI [of _ a']) (simp add: store_infraction_def)
  show "\<exists>sent. snd (on_message lib e now m st) =
           sent @ [Sleep (delay st), DeleteRequest (msg_channel_id m) (msg_id m)] \<and>
           (sent = [] \<or> (\<exists>a. sent = [AdminSend a (msg_id m)]))"
    unfolding eq snd_conv using announce_infraction_cases(2) [of e m ?st1] by blast
qed

text \<open>
  The message of the examples, once as sent by a bot and once as sent by a user.
\<close>

theorem on_message_effects_witness:
  "on_message sample_lib ex_env 1000 (ex_msg\<lparr>author_bot := True\<rparr>) ex_run_banned = (ex_run_banned, []) \<and>
   (\<exists>sent. snd (on_message sample_lib ex_env 1000 ex_msg ex_run_banned) =
        sent @ [Sleep (delay ex_run_banned), DeleteRequest 5 42])"
proof -
  have bot: "author_bot (ex_msg\<lparr>author_bot := True\<rparr>)" by simp
  have user: "\<not> author_bot ex_msg" by (simp add: ex_msg_def)
  have flagged: "check_message sample_lib ex_run_banned (str_lower (msg_content ex_msg)) = Inr True"
    by (simp add: ex_lower ex_flagged)
  have ids: "msg_channel_id ex_msg = 5" "msg_id ex_msg = 42" by (simp_all add: ex_msg_def)
  show ?thesis
    using on_message_effects [of "ex_msg\<lparr>author_bot := True\<rparr>" sample_lib ex_run_banned ex_env 1000]
      on_message_effects [of ex_msg sample_lib ex_run_banned ex_env 1000]
      bot user flagged ids
    by auto
qed

text \<open>
  The claim fails at the message of the examples: the last thing the handler does for
  it is the deletion request for message 42 in channel 5.
\<close>

theorem on_message_deletes_counterexample:
  "check_message sample_lib ex_run_banned (str_lower (msg_content ex_msg)) = Inr True \<and>
   snd (on_message sample_lib ex_env 1000 ex_msg ex_run_banned) =
     [AdminSend 7 42, Sleep 21600, DeleteRequest 5 42]"
  by (simp add: ex_on_message ex_lower ex_flagged)

subsection \<open>The score is the smoothed posterior\<close>

text \<open>
  Claim C6. For every token list the score the code computes in Python's floats is the
  Laplace-smoothed posterior of the specification: both products start at \<^verbatim>\<open>1.0\<close> and
  are multiplied, token after token, by the float \<open>(count + 1) / (total + 2)\<close>; the result
  is \<open>spamProduct / (spamProduct + hamProduct)\<close>, and it is \<^verbatim>\<open>0.0\<close> when both products
  are zero (as they are after an underflow); the function returns and does not raise.
  This holds for every arithmetic and every set \<open>unit\<close> of its floats with the laws above,
  and every model whose divisors \<open>total + 2\<close> are not zero and whose likelihoods are in
  \<open>unit\<close>, provided \<^verbatim>\<open>1.0 / d\<close> is the same float as \<^verbatim>\<open>1 / d\<close> for the two divisors.
  For binary64 and the floats from \<^verbatim>\<open>0.0\<close> to \<^verbatim>\<open>1.0\<close> these are the models with
  \<open>0 \<le> count + 1 \<le> total + 2\<close> and divisors below \<^verbatim>\<open>2 ** 53\<close>, so all models whose
  totals are the sums of their counts.
\<close>

theorem float_score_is_laplace_posterior:
  assumes laws: "float_laws F unit"
    and ts: "total_spam st + 2 \<noteq> 0" and th: "total_ham st + 2 \<noteq> 0"
    and us: "float_div_int F (fone F) (total_spam st + 2) = int_div F 1 (total_spam st + 2)"
    and uh: "float_div_int F (fone F) (total_ham st + 2) = int_div F 1 (total_ham st + 2)"
    and fs: "\<forall>t\<in>set tokens. unit (spec_p_token_spam F st t)"
    and fh: "\<forall>t\<in>set tokens. unit (spec_p_token_ham F st t)"
  shows "calculate_spam_probability_float F st tokens = Inr (spec_score F st tokens)"
proof -
  let ?sp = "foldl (fmul F) (fone F) (map (spec_p_token_spam F st) tokens)"
  let ?hp = "foldl (fmul F) (fone F) (map (spec_p_token_ham F st) tokens)"
  have loop: "likelihood_loop_float F st (fone F, fone F) tokens = Inr (?sp, ?hp)"
    using ts th us uh by (rule likelihood_loop_float_products)
  have one: "unit (fone F)" using laws by (simp add: float_laws_def)
  have sp: "unit ?sp" using laws one fs by (intro foldl_unit [where unit = unit]) auto
  have hp: "unit ?hp" using laws one fh by (intro foldl_unit [where unit = unit]) auto
  have zero: "feq0 F (fadd F ?sp ?hp) \<longleftrightarrow> feq0 F ?sp \<and> feq0 F ?hp"
    using laws sp hp by (simp add: float_laws_def)
  show ?thesis
    unfolding calculate_spam_probability_float_def loop spec_score_def Let_def
    using zero by simp
qed

text \<open>
  In the arithmetic that flushes below 1/1000: two unseen tokens in the untrained model
  give the products 1/4 and 1/4 and the score 1/2; ten unseen tokens make both products
  underflow to 0 and give the score 0; and in the trained model \<^verbatim>\<open>buy\<close> has the
  likelihoods 99/100 and 1/200 and the score 198/199.
\<close>

theorem float_score_is_laplace_posterior_witness:
  "calculate_spam_probability_float toy_arith (init 6 None) [''a'', ''b''] = Inr (1 / 2) \<and>
   calculate_spam_probability_float toy_arith (init 6 None)
     [''a'', ''b'', ''c'', ''d'', ''e'', ''f'', ''g'', ''h'', ''i'', ''j''] = Inr 0 \<and>
   calculate_spam_probability_float toy_arith ex_trained [''buy''] = Inr (198 / 199)"
proof -
  have u: "float_div_int toy_arith (fone toy_arith) d = int_div toy_arith 1 d" for d
    by (simp add: toy_arith_def)
  have a: "calculate_spam_probability_float toy_arith (init 6 None) ts =
      Inr (spec_score toy_arith (init 6 None) ts)" for ts
    using float_score_is_laplace_posterior [OF toy_laws, of "init 6 None" ts] u
    by (simp add: ex_init_fields spec_p_token_spam_def spec_p_token_ham_def
        toy_arith_def flush_def get_count_def)
  have b: "calculate_spam_probability_float toy_arith ex_trained [''buy''] =
      Inr (spec_score toy_arith ex_trained [''buy''])"
    using float_score_is_laplace_posterior [OF toy_laws, of ex_trained "[''buy'']"] u
    by (simp add: ex_trained_fields spec_p_token_spam_def spec_p_token_ham_def
        toy_arith_def flush_def get_count_def)
  show ?thesis
    unfolding a b
    by (simp add: spec_score_def spec_p_token_spam_def spec_p_token_ham_def
        ex_init_fields ex_trained_fields toy_arith_def flush_def get_count_def)
qed

subsection \<open>The score of no tokens\<close>

text \<open>
  Claim C7. In every state of the classifier the score of the empty token list is 0.5,
  which does not exceed 0.9, and a text without tokens is not flagged.
\<close>

theorem empty_token_list_scores_half:
  "calculate_spam_probability st [] = Inr (1 / 2) \<and> \<not> ((1 / 2 :: real) > 9 / 10) \<and>
   (tokenize lib text = [] \<longrightarrow> check_message lib st text = Inr False)"
  by (simp add: calculate_spam_probability_Nil check_message_def)

text \<open>
  The empty text, in a state in which a division of the Bayesian stage would raise.
\<close>

theorem empty_token_list_scores_half_witness:
  "calculate_spam_probability (ex_run_banned\<lparr>total_spam := - 2\<rparr>) [] = Inr (1 / 2) \<and>
   check_message sample_lib (ex_run_banned\<lparr>total_spam := - 2\<rparr>) [] = Inr False"
  using empty_token_list_scores_half [of "ex_run_banned\<lparr>total_spam := - 2\<rparr>" sample_lib "[]"]
  by (simp add: ex_tokens)

subsection \<open>When the check returns and when it raises\<close>




subsection \<open>Exceptions and the banned set\<close>

text \<open>
  Claim C9, as amended. After every load the banned set and the exception set are
  disjoint, and the index is built from the banned set after the exceptions were
  removed: its keys are the banned words that remain, and no exception word has an
  entry. The claim concludes that a token equal to an exception word is never flagged by
  the lexicon check; the check looks up the stem of the token, so what holds is: a
  message all of whose tokens have stems in the exception set is not flagged by the
  lexicon check.
\<close>

theorem exceptions_removed_before_indexing:
  "banned_words (load_banned_words bf ef st) \<inter> exceptions (load_banned_words bf ef st) = {} \<and>
   dom (soundex_codes (load_banned_words bf ef st)) = banned_words (load_banned_words bf ef st) \<and>
   (\<forall>w\<in>exceptions (load_banned_words bf ef st). soundex_codes (load_banned_words bf ef st) w = None) \<and>
   ((\<forall>t\<in>set (tokenize lib text). ps_stem lib t \<in> exceptions (load_banned_words bf ef st)) \<longrightarrow>
      \<not> lexicon_loop (banned_words (load_banned_words bf ef st))
           (map (ps_stem lib) (tokenize lib text)))"
proof (intro conjI impI)
  show disj: "banned_words (load_banned_words bf ef st) \<inter> exceptions (load_banned_words bf ef st) = {}"
    by (auto simp: load_banned_words_banned load_banned_words_exceptions)
  show d: "dom (soundex_codes (load_banned_words bf ef st)) = banned_words (load_banned_words bf ef st)"
    by (simp add: load_banned_words_dom load_banned_words_banned)
  show "\<forall>w\<in>exceptions (load_banned_words bf ef st). soundex_codes (load_banned_words bf ef st) w = None"
    using disj d by (metis disjoint_iff domIff)
  assume "\<forall>t\<in>set (tokenize lib text). ps_stem lib t \<in> exceptions (load_banned_words bf ef st)"
  then show "\<not> lexicon_loop (banned_words (load_banned_words bf ef st))
           (map (ps_stem lib) (tokenize lib text))"
    using disj by (auto simp: lexicon_loop_iff)
qed

text \<open>
  With \<^verbatim>\<open>run\<close> and \<^verbatim>\<open>class\<close> banned and \<^verbatim>\<open>class\<close> excepted, the message
  \<^verbatim>\<open>class\<close> does not fire the lexicon check.
\<close>

theorem exceptions_removed_before_indexing_witness:
  "banned_words ex_class_excepted \<inter> exceptions ex_class_excepted = {} \<and>
   dom (soundex_codes ex_class_excepted) = {''run''} \<and>
   soundex_codes ex_class_excepted ''class'' = None \<and>
   \<not> lexicon_loop (banned_words ex_class_excepted)
        (map (ps_stem sample_lib) (tokenize sample_lib ''class''))"
  using exceptions_removed_before_indexing
          [of "Some [''run'', ''class'']" "Some [''class'']" "init 6 None" sample_lib "''class''"]
  by (simp add: ex_class_excepted_def load_banned_words_banned load_banned_words_exceptions
      ex_files ex_tokens ex_stems2)

text \<open>
  The claim fails with \<^verbatim>\<open>run\<close> banned and \<^verbatim>\<open>running\<close> excepted: the token
  \<^verbatim>\<open>running\<close> is an exception word, its stem \<^verbatim>\<open>run\<close> is banned, and the lexicon
  check flags the message.
\<close>

theorem exception_word_flagged_counterexample:
  "''running'' \<in> exceptions ex_run_except_running \<and>
   tokenize sample_lib ''running'' = [''running''] \<and>
   lexicon_loop (banned_words ex_run_except_running)
     (map (ps_stem sample_lib) (tokenize sample_lib ''running'')) \<and>
   check_message sample_lib ex_run_except_running ''running'' = Inr True"
  by (simp add: ex_run_except_running_def load_banned_words_banned load_banned_words_exceptions
      ex_files ex_tokens ex_stems check_message_def)

subsection \<open>One sweep clears every due row\<close>

text \<open>
  Claim C10. After a sweep at time \<open>t\<close> no row with \<open>deletion_time \<le> t\<close> is left in
  the table, whatever the platform answered; the sweep handles exactly the due rows, one
  entry each; and over any sequence of messages, sweeps and reloads that starts from a
  table with unique ids below the counter, no row id is handled by the sweeps twice.
\<close>

theorem sweep_clears_every_due_row_once:
  "(\<forall>r\<in>set (infractions (fst (delete_expired_messages e t st))). \<not> deletion_time r \<le> t) \<and>
   map fst (snd (delete_expired_messages e t st)) =
     map row_id (filter (\<lambda>r. deletion_time r \<le> t) (infractions st)) \<and>
   (table_ok st \<longrightarrow> distinct (map fst (snd (run lib evs (st, [])))))"
proof (intro conjI impI ballI)
  fix r assume "r \<in> set (infractions (fst (delete_expired_messages e t st)))"
  then show "\<not> deletion_time r \<le> t" by (rule sweep_no_due_left)
next
  show "map fst (snd (delete_expired_messages e t st)) =
     map row_id (filter (\<lambda>r. deletion_time r \<le> t) (infractions st))"
    by (rule sweep_log_ids)
next
  assume "table_ok st"
  then show "distinct (map fst (snd (run lib evs (st, []))))"
    by (rule run_distinct) simp_all
qed

text \<open>
  The message of the examples is handled at 1000; a sweep at 100 would leave its row,
  which is not due; the sweeps at 22600 and 22660 handle it once.
\<close>

theorem sweep_clears_every_due_row_once_witness:
  "infractions (fst (delete_expired_messages ex_env 100 ex_pending)) = infractions ex_pending \<and>
   infractions (fst (delete_expired_messages ex_env 22600 ex_pending)) = [] \<and>
   map fst (snd (delete_expired_messages ex_env 22600 ex_pending)) = [1] \<and>
   table_ok ex_run_banned \<and>
   distinct (map fst (snd (run sample_lib
      [Message ex_env 1000 ex_msg, Sweep ex_env 22600, Sweep ex_env 22660] (ex_run_banned, [])))) \<and>
   snd (run sample_lib
      [Message ex_env 1000 ex_msg, Sweep ex_env 22600, Sweep ex_env 22660] (ex_run_banned, [])) =
     [(1, Requested OtherError)]"
proof -
  have "map fst (snd (delete_expired_messages ex_env 22600 ex_pending)) =
      map row_id (filter (\<lambda>r. deletion_time r \<le> 22600) (infractions ex_pending))"
    using sweep_clears_every_due_row_once [of ex_env 22600 ex_pending sample_lib "[]"]
    by blast
  then have ids: "map fst (snd (delete_expired_messages ex_env 22600 ex_pending)) = [1]"
    by (simp add: ex_pending_rows)
  have once: "distinct (map fst (snd (run sample_lib
      [Message ex_env 1000 ex_msg, Sweep ex_env 22600, Sweep ex_env 22660] (ex_run_banned, []))))"
    using sweep_clears_every_due_row_once
            [of ex_env 22600 ex_run_banned sample_lib
                "[Message ex_env 1000 ex_msg, Sweep ex_env 22600, Sweep ex_env 22660]"]
          ex_table_ok
    by blast
  have early: "infractions (fst (delete_expired_messages ex_env 100 ex_pending)) = infractions ex_pending"
    by (simp add: sweep_eq ex_pending_rows)
  have "infractions (fst (delete_expired_messages ex_env 22600 ex_pending)) = []"
    by (simp add: ex_sweep1)
  then show ?thesis using early ids once ex_table_ok ex_run by blast
qed

end
